theory Spec2Isabelle
  imports Main "HOL-Library.Word"
begin

section \<open>Strings\<close>

text \<open>
  Strings are \<^typ>\<open>string\<close>, read as sequences of ASCII code units. On that range
  \<open>String.prototype.trim\<close> strips TAB, LF, VT, FF, CR and SPACE from both ends and
  \<open>String.prototype.toUpperCase\<close> maps \<open>a..z\<close> to \<open>A..Z\<close>. Code units above 127
  are outside the model: the functions below leave them alone.
\<close>

definition isWhiteSpace :: "char \<Rightarrow> bool" where
  "isWhiteSpace c \<longleftrightarrow> (of_char c :: nat) \<in> {9, 10, 11, 12, 13, 32}"

definition trim :: "string \<Rightarrow> string" where
  "trim s = rev (dropWhile isWhiteSpace (rev (dropWhile isWhiteSpace s)))"

definition toUpperChar :: "char \<Rightarrow> char" where
  "toUpperChar c =
     (let n = (of_char c :: nat) in if 97 \<le> n \<and> n \<le> 122 then char_of (n - 32) else c)"

definition toUpperCase :: "string \<Rightarrow> string" where
  "toUpperCase s = map toUpperChar s"

section \<open>Code generator\<close>

text \<open>
  \<open>crypto.randomBytes(size)\<close> raises a range error for a negative size or one above
  \<open>2^31 - 1\<close>, and otherwise returns \<open>size\<close> bytes. The entropy source is a parameter
  \<open>rnd\<close>, the i-th byte drawn being \<open>rnd i\<close>. Lengths are integers; a fractional
  \<open>codeLength\<close> is outside the model.
\<close>

datatype js_error = ERR_OUT_OF_RANGE

definition randomBytes :: "(nat \<Rightarrow> 8 word) \<Rightarrow> int \<Rightarrow> js_error + 8 word list" where
  "randomBytes rnd n =
     (if n < 0 \<or> 2 ^ 31 - 1 < n then Inl ERR_OUT_OF_RANGE
      else Inr (map rnd [0..<nat n]))"

definition chars :: string where
  "chars = ''ABCDEFGHJKLMNPQRSTUVWXYZ23456789''"

text \<open>The \<open>for\<close> loop of \<open>generateVerificationCode\<close>, with its index and accumulator.\<close>

function code_loop :: "nat \<Rightarrow> nat \<Rightarrow> 8 word list \<Rightarrow> string \<Rightarrow> string" where
  "code_loop i len bytes code =
     (if i < len
      then code_loop (Suc i) len bytes (code @ [chars ! (unat (bytes ! i) mod length chars)])
      else code)"
  by pat_completeness auto
termination
  by (relation "measure (\<lambda>(i, len, bytes, code). len - i)") auto

definition generateVerificationCode :: "int \<Rightarrow> (nat \<Rightarrow> 8 word) \<Rightarrow> js_error + string" where
  "generateVerificationCode len rnd =
     (case randomBytes rnd len of
        Inl e \<Rightarrow> Inl e
      | Inr bytes \<Rightarrow> Inr (code_loop 0 (nat len) bytes []))"

section \<open>Data model of the manager\<close>

datatype TwoFactorRequestStatus = Pending | Verified | Expired | Cancelled

record TwoFactorRequest =
  id_req :: string
  command :: string
  verificationCode :: string
  createdAtMs :: int
  expiresAtMs :: int
  status :: TwoFactorRequestStatus
  sessionKey :: "string option"
  agentId :: "string option"
  channelId :: "string option"
  userId :: "string option"
  resolvedAtMs :: "int option"

record TwoFactorRequestPayload =
  command_pl :: string
  sessionKey_pl :: "string option"
  agentId_pl :: "string option"
  channelId_pl :: "string option"
  userId_pl :: "string option"

record MockConfig =
  enabled_mock :: "bool option"
  authUrl_mock :: "string option"
  code_mock :: "string option"

record TwoFactorConfig =
  enabled :: bool
  timeoutSeconds :: "int option"
  authBaseUrl :: string
  codeLength :: "int option"
  mock :: "MockConfig option"

text \<open>
  Request objects are shared between the caller and the manager, which writes their
  \<open>status\<close> through its own reference: they live in an object store addressed by
  reference. Every reference denotes an object; \<open>create\<close> writes the new object at the
  next free reference, and the references below \<open>next_ref\<close> are the objects created so
  far. A promise is named by a number, and so is a timer handle. Clock readings and
  delays are integers, in milliseconds.
\<close>

type_synonym ref = nat
type_synonym promise = nat
type_synonym timer_handle = nat

record PendingEntry =
  request :: ref
  resolve :: promise
  timer :: timer_handle

text \<open>The closure handed to \<open>setTimeout\<close>: it captures \<open>request\<close> and \<open>resolve\<close>.\<close>

record TimerCallback =
  cb_request :: ref
  cb_resolve :: promise
  cb_delay :: int

text \<open>
  The manager's fields (\<open>config\<close>, \<open>pending\<close>) together with the part of the host they
  act on: the object store, the timers that are armed, and the calls made so far to the
  \<open>resolve\<close> functions of the promises, in order (a waiter is woken by the first call
  for its promise).
\<close>

record world =
  config :: TwoFactorConfig
  pending :: "string \<rightharpoonup> PendingEntry"
  heap :: "ref \<Rightarrow> TwoFactorRequest"
  next_ref :: nat
  timers :: "timer_handle \<rightharpoonup> TimerCallback"
  next_timer :: nat
  next_promise :: nat
  wakes :: "(promise \<times> bool) list"

definition DEFAULT_CODE_LENGTH :: int where
  "DEFAULT_CODE_LENGTH = 6"

definition DEFAULT_TIMEOUT_SECONDS :: int where
  "DEFAULT_TIMEOUT_SECONDS = 300"

subsection \<open>Effects\<close>

definition clearTimeout :: "timer_handle \<Rightarrow> world \<Rightarrow> world" where
  "clearTimeout t w = w\<lparr>timers := (timers w)(t := None)\<rparr>"

definition pending_delete :: "string \<Rightarrow> world \<Rightarrow> world" where
  "pending_delete k w = w\<lparr>pending := (pending w)(k := None)\<rparr>"

definition set_status :: "ref \<Rightarrow> TwoFactorRequestStatus \<Rightarrow> world \<Rightarrow> world" where
  "set_status r st w = w\<lparr>heap := (heap w)(r := (heap w r)\<lparr>status := st\<rparr>)\<rparr>"

definition set_resolvedAtMs :: "ref \<Rightarrow> int \<Rightarrow> world \<Rightarrow> world" where
  "set_resolvedAtMs r t w = w\<lparr>heap := (heap w)(r := (heap w r)\<lparr>resolvedAtMs := Some t\<rparr>)\<rparr>"

definition call_resolve :: "promise \<Rightarrow> bool \<Rightarrow> world \<Rightarrow> world" where
  "call_resolve p b w = w\<lparr>wakes := wakes w @ [(p, b)]\<rparr>"

subsection \<open>Operations\<close>

text \<open>
  \<open>create\<close>: \<open>now\<close> is the reading of \<open>Date.now()\<close>, \<open>uuid\<close> the result of
  \<open>crypto.randomUUID()\<close>. The new object takes the next free reference; the table and
  the timers are not touched.
\<close>

definition mockCode :: "TwoFactorConfig \<Rightarrow> string option" where
  "mockCode cfg =
     (case mock cfg of
        None \<Rightarrow> None
      | Some m \<Rightarrow>
          if enabled_mock m = Some True
          then Some (case code_mock m of
                       None \<Rightarrow> ''123456''
                     | Some c \<Rightarrow> if trim c = [] then ''123456'' else trim c)
          else None)"

definition create ::
  "world \<Rightarrow> TwoFactorRequestPayload \<Rightarrow> int \<Rightarrow> string \<Rightarrow> (nat \<Rightarrow> 8 word) \<Rightarrow> js_error + (ref \<times> world)"
where
  "create w payload now uuid rnd =
     (let timeoutMs =
            (case timeoutSeconds (config w) of None \<Rightarrow> DEFAULT_TIMEOUT_SECONDS | Some t \<Rightarrow> t) * 1000;
          len = (case codeLength (config w) of None \<Rightarrow> DEFAULT_CODE_LENGTH | Some n \<Rightarrow> n)
      in case (case mockCode (config w) of
                 Some c \<Rightarrow> Inr c
               | None \<Rightarrow> generateVerificationCode len rnd) of
           Inl e \<Rightarrow> Inl e
         | Inr vc \<Rightarrow>
             Inr (next_ref w,
                  w\<lparr>heap := (heap w)(next_ref w :=
                       \<lparr>id_req = uuid, command = command_pl payload, verificationCode = vc,
                        createdAtMs = now, expiresAtMs = now + timeoutMs, status = Pending,
                        sessionKey = sessionKey_pl payload, agentId = agentId_pl payload,
                        channelId = channelId_pl payload, userId = userId_pl payload,
                        resolvedAtMs = None\<rparr>),
                    next_ref := Suc (next_ref w)\<rparr>))"

text \<open>
  \<open>waitForVerification\<close> either settles at once with \<open>false\<close> or returns a promise that
  one of the later calls of its \<open>resolve\<close> settles.
\<close>

datatype wait_result = Settled bool | Suspended promise

definition waitForVerification :: "world \<Rightarrow> ref \<Rightarrow> int \<Rightarrow> wait_result \<times> world" where
  "waitForVerification w req now =
     (let timeoutMs = expiresAtMs (heap w req) - now in
      if timeoutMs \<le> 0 then (Settled False, set_status req Expired w)
      else
        let p = next_promise w; t = next_timer w in
        (Suspended p,
         w\<lparr>timers := (timers w)(t \<mapsto> \<lparr>cb_request = req, cb_resolve = p, cb_delay = timeoutMs\<rparr>),
           pending := (pending w)(id_req (heap w req) \<mapsto> \<lparr>request = req, resolve = p, timer = t\<rparr>),
           next_timer := Suc t, next_promise := Suc p\<rparr>))"

text \<open>
  The body of the timer's callback, and the host running the callback of an armed timer.
  The model puts no clock on the host: an armed timer may fire at any moment, and a timer
  that has fired or has been cleared is not armed.
\<close>

definition timerCallback :: "TimerCallback \<Rightarrow> world \<Rightarrow> world" where
  "timerCallback cb w =
     call_resolve (cb_resolve cb) False
       (set_status (cb_request cb) Expired
          (pending_delete (id_req (heap w (cb_request cb))) w))"

definition fireTimer :: "world \<Rightarrow> timer_handle \<Rightarrow> world option" where
  "fireTimer w t =
     (case timers w t of
        None \<Rightarrow> None
      | Some cb \<Rightarrow> Some (timerCallback cb (w\<lparr>timers := (timers w)(t := None)\<rparr>)))"

record verify_result =
  success :: bool
  error :: "string option"

text \<open>\<open>verify\<close> reads the clock twice: \<open>now\<close> for the expiry check, \<open>now'\<close> for \<open>resolvedAtMs\<close>.\<close>

definition verify :: "world \<Rightarrow> string \<Rightarrow> string \<Rightarrow> int \<Rightarrow> int \<Rightarrow> verify_result \<times> world" where
  "verify w requestId code now now' =
     (case pending w requestId of
        None \<Rightarrow> (\<lparr>success = False, error = Some ''Request not found or expired''\<rparr>, w)
      | Some p \<Rightarrow>
          if now > expiresAtMs (heap w (request p)) then
            (\<lparr>success = False, error = Some ''Request expired''\<rparr>,
             call_resolve (resolve p) False
               (set_status (request p) Expired
                  (pending_delete requestId (clearTimeout (timer p) w))))
          else
            let normalizedInput = toUpperCase (trim code);
                normalizedExpected = toUpperCase (trim (verificationCode (heap w (request p))))
            in
              if normalizedInput \<noteq> normalizedExpected then
                (\<lparr>success = False, error = Some ''Invalid verification code''\<rparr>, w)
              else
                (\<lparr>success = True, error = None\<rparr>,
                 call_resolve (resolve p) True
                   (set_resolvedAtMs (request p) now'
                      (set_status (request p) Verified
                         (pending_delete requestId (clearTimeout (timer p) w))))))"

definition cancel :: "world \<Rightarrow> string \<Rightarrow> bool \<times> world" where
  "cancel w requestId =
     (case pending w requestId of
        None \<Rightarrow> (False, w)
      | Some p \<Rightarrow>
          (True,
           call_resolve (resolve p) False
             (set_status (request p) Cancelled
                (pending_delete requestId (clearTimeout (timer p) w)))))"

definition getRequest :: "world \<Rightarrow> string \<Rightarrow> ref option" where
  "getRequest w requestId =
     (case pending w requestId of None \<Rightarrow> None | Some p \<Rightarrow> Some (request p))"

section \<open>Risk classifier\<close>

subsection \<open>Regular expressions\<close>

text \<open>
  The built-in patterns use literals, \<open>\s\<close>, the classes \<open>[a-zA-Z]\<close> and \<open>[0-7]\<close>,
  \<open>*\<close> and \<open>+\<close> on a single character matcher, one level of alternation, \<open>^\<close>,
  \<open>$\<close> and \<open>\b\<close>, all under the \<open>i\<close> flag. \<open>RegExp.prototype.test\<close> on such an
  expression (no \<open>g\<close> or \<open>y\<close> flag, so no state) says whether some match exists at
  some start position; the matcher below computes every position a match can end at.
  A position is the character before it, if any, and the rest of the input.
\<close>

datatype atom = Ch char | Ws | Cls "(char \<times> char) list"

datatype piece = One atom | Star atom | Plus atom | Bol | Eol | WordB

datatype node = Seq "piece list" | Alt "piece list list"

record RegExp =
  nodes :: "node list"
  ignoreCase :: bool

type_synonym pos = "char option \<times> string"

definition toLowerChar :: "char \<Rightarrow> char" where
  "toLowerChar c =
     (let n = (of_char c :: nat) in if 65 \<le> n \<and> n \<le> 90 then char_of (n + 32) else c)"

definition in_range :: "char \<Rightarrow> char \<Rightarrow> char \<Rightarrow> bool" where
  "in_range lo hi x \<longleftrightarrow> (of_char lo :: nat) \<le> of_char x \<and> (of_char x :: nat) \<le> of_char hi"

definition isWordChar :: "char \<Rightarrow> bool" where
  "isWordChar c \<longleftrightarrow>
     in_range CHR ''0'' CHR ''9'' c \<or> in_range CHR ''A'' CHR ''Z'' c \<or> c = CHR ''_'' \<or>
     in_range CHR ''a'' CHR ''z'' c"

fun accepts :: "bool \<Rightarrow> atom \<Rightarrow> char \<Rightarrow> bool" where
  "accepts ic (Ch c) x = (if ic then toUpperChar x = toUpperChar c else x = c)"
| "accepts ic Ws x = isWhiteSpace x"
| "accepts ic (Cls rs) x =
     list_ex (\<lambda>(lo, hi). in_range lo hi x \<or>
                (ic \<and> (in_range lo hi (toUpperChar x) \<or> in_range lo hi (toLowerChar x)))) rs"

fun star_rests :: "bool \<Rightarrow> atom \<Rightarrow> char option \<Rightarrow> string \<Rightarrow> pos list" where
  "star_rests ic a prev [] = [(prev, [])]"
| "star_rests ic a prev (c # cs) =
     (prev, c # cs) # (if accepts ic a c then star_rests ic a (Some c) cs else [])"

fun step_piece :: "bool \<Rightarrow> piece \<Rightarrow> pos \<Rightarrow> pos list" where
  "step_piece ic (One a) (prev, s) =
     (case s of [] \<Rightarrow> [] | c # cs \<Rightarrow> if accepts ic a c then [(Some c, cs)] else [])"
| "step_piece ic (Star a) (prev, s) = star_rests ic a prev s"
| "step_piece ic (Plus a) (prev, s) =
     (case s of [] \<Rightarrow> [] | c # cs \<Rightarrow> if accepts ic a c then star_rests ic a (Some c) cs else [])"
| "step_piece ic Bol (prev, s) = (if prev = None then [(prev, s)] else [])"
| "step_piece ic Eol (prev, s) = (if s = [] then [(prev, s)] else [])"
| "step_piece ic WordB (prev, s) =
     (if (case prev of None \<Rightarrow> False | Some c \<Rightarrow> isWordChar c)
         \<noteq> (case s of [] \<Rightarrow> False | c # cs \<Rightarrow> isWordChar c)
      then [(prev, s)] else [])"

fun run_pieces :: "bool \<Rightarrow> piece list \<Rightarrow> pos list \<Rightarrow> pos list" where
  "run_pieces ic [] here = here"
| "run_pieces ic (p # ps) here = run_pieces ic ps (concat (map (step_piece ic p) here))"

fun step_node :: "bool \<Rightarrow> node \<Rightarrow> pos list \<Rightarrow> pos list" where
  "step_node ic (Seq ps) here = run_pieces ic ps here"
| "step_node ic (Alt alts) here = concat (map (\<lambda>alt. run_pieces ic alt here) alts)"

fun run_nodes :: "bool \<Rightarrow> node list \<Rightarrow> pos list \<Rightarrow> pos list" where
  "run_nodes ic [] here = here"
| "run_nodes ic (n # ns) here = run_nodes ic ns (step_node ic n here)"

fun search :: "RegExp \<Rightarrow> char option \<Rightarrow> string \<Rightarrow> bool" where
  "search re prev [] = (run_nodes (ignoreCase re) (nodes re) [(prev, [])] \<noteq> [])"
| "search re prev (c # cs) =
     (run_nodes (ignoreCase re) (nodes re) [(prev, c # cs)] \<noteq> [] \<or> search re (Some c) cs)"

definition regexp_test :: "RegExp \<Rightarrow> string \<Rightarrow> bool" where
  "regexp_test re s = search re None s"

definition lit :: "string \<Rightarrow> piece list" where
  "lit s = map (\<lambda>c. One (Ch c)) s"

definition letters :: atom where
  "letters = Cls [(CHR ''a'', CHR ''z''), (CHR ''A'', CHR ''Z'')]"

definition octal :: atom where
  "octal = Cls [(CHR ''0'', CHR ''7'')]"

subsection \<open>Patterns\<close>

datatype Severity = critical | high | medium

text \<open>The field \<open>pattern\<close> is the \<open>test\<close> method of the pattern's \<open>RegExp\<close>.\<close>

record HighRiskPattern =
  id_pat :: string
  pattern :: "string \<Rightarrow> bool"
  description :: string
  severity :: Severity

definition DEFAULT_HIGH_RISK_PATTERNS :: "HighRiskPattern list" where
  "DEFAULT_HIGH_RISK_PATTERNS =
   [\<lparr>id_pat = ''rm-recursive'',
     pattern = regexp_test \<lparr>nodes =
       [Seq (Bol # lit ''rm'' @ [Plus Ws]),
        Alt [lit ''-'' @ [Star letters, One (Ch CHR ''r''), Star letters],
             lit ''-'' @ [Star letters, One (Ch CHR ''f''), Star letters],
             lit ''--recursive'', lit ''--force''],
        Seq [Plus Ws]], ignoreCase = True\<rparr>,
     description = ''Recursive or forced file deletion'', severity = critical\<rparr>,
    \<lparr>id_pat = ''sudo'',
     pattern = regexp_test \<lparr>nodes =
       [Seq [Bol], Alt [lit ''sudo'', lit ''doas''], Seq [Plus Ws]], ignoreCase = True\<rparr>,
     description = ''Elevated privilege command'', severity = high\<rparr>,
    \<lparr>id_pat = ''drop-database'',
     pattern = regexp_test \<lparr>nodes =
       [Seq (WordB # lit ''drop'' @ [Plus Ws]),
        Alt [lit ''database'', lit ''table'', lit ''schema''],
        Seq [WordB]], ignoreCase = True\<rparr>,
     description = ''Database object deletion'', severity = critical\<rparr>,
    \<lparr>id_pat = ''git-force-push'',
     pattern = regexp_test \<lparr>nodes =
       [Seq (Bol # lit ''git'' @ [Plus Ws] @ lit ''push'' @ [Plus Ws]),
        Alt [lit ''-'' @ [Star letters, One (Ch CHR ''f''), Star letters], lit ''--force'']],
       ignoreCase = True\<rparr>,
     description = ''Git force push'', severity = high\<rparr>,
    \<lparr>id_pat = ''kubectl-delete'',
     pattern = regexp_test \<lparr>nodes =
       [Seq (Bol # lit ''kubectl'' @ [Plus Ws] @ lit ''delete'' @ [Plus Ws])],
       ignoreCase = True\<rparr>,
     description = ''Kubernetes resource deletion'', severity = high\<rparr>,
    \<lparr>id_pat = ''docker-cleanup'',
     pattern = regexp_test \<lparr>nodes =
       [Seq (Bol # lit ''docker'' @ [Plus Ws]),
        Alt [lit ''rm'', lit ''rmi'',
             lit ''system'' @ [Plus Ws] @ lit ''prune'',
             lit ''container'' @ [Plus Ws] @ lit ''prune'',
             lit ''image'' @ [Plus Ws] @ lit ''prune'']],
       ignoreCase = True\<rparr>,
     description = ''Docker resource cleanup'', severity = medium\<rparr>,
    \<lparr>id_pat = ''chmod-dangerous'',
     pattern = regexp_test \<lparr>nodes =
       [Seq (Bol # lit ''chmod'' @ [Plus Ws]),
        Alt [lit ''-'' @ [Star letters, One (Ch CHR ''R''), Star letters], lit ''--recursive''],
        Seq ([Plus Ws, Star octal, One octal, One octal, One octal, Plus Ws] @ lit ''/'')],
       ignoreCase = True\<rparr>,
     description = ''Recursive chmod on root paths'', severity = critical\<rparr>,
    \<lparr>id_pat = ''chown-dangerous'',
     pattern = regexp_test \<lparr>nodes =
       [Seq (Bol # lit ''chown'' @ [Plus Ws]),
        Alt [lit ''-'' @ [Star letters, One (Ch CHR ''R''), Star letters], lit ''--recursive''],
        Seq [Plus Ws]], ignoreCase = True\<rparr>,
     description = ''Recursive ownership change'', severity = high\<rparr>,
    \<lparr>id_pat = ''format-disk'',
     pattern = regexp_test \<lparr>nodes =
       [Seq [Bol],
        Alt [lit ''mkfs'', lit ''fdisk'', lit ''parted'', lit ''dd'' @ [Plus Ws] @ lit ''if='']],
       ignoreCase = True\<rparr>,
     description = ''Disk formatting or low-level operations'', severity = critical\<rparr>,
    \<lparr>id_pat = ''truncate-table'',
     pattern = regexp_test \<lparr>nodes =
       [Seq (WordB # lit ''truncate'' @ [Plus Ws] @ lit ''table'' @ [WordB])],
       ignoreCase = True\<rparr>,
     description = ''Database table truncation'', severity = critical\<rparr>,
    \<lparr>id_pat = ''2fa-test'',
     pattern = regexp_test \<lparr>nodes = [Seq (Bol # lit ''2fa-test'' @ [Eol])], ignoreCase = True\<rparr>,
     description = ''Manual 2FA test command'', severity = medium\<rparr>]"


record HighRiskDetectorConfig =
  enabled_det :: bool
  customPatterns :: "HighRiskPattern list option"
  disabledPatternIds :: "string list option"

subsection \<open>Classification\<close>



definition getHighRiskPatterns :: "HighRiskDetectorConfig option \<Rightarrow> HighRiskPattern list" where
  "getHighRiskPatterns cfg =
     (let disabledIds =
            set (case cfg of None \<Rightarrow> []
                 | Some c \<Rightarrow> (case disabledPatternIds c of None \<Rightarrow> [] | Some ds \<Rightarrow> ds))
      in filter (\<lambda>p. id_pat p \<notin> disabledIds) DEFAULT_HIGH_RISK_PATTERNS
         @ (case cfg of None \<Rightarrow> []
            | Some c \<Rightarrow> (case customPatterns c of None \<Rightarrow> [] | Some cs \<Rightarrow> cs)))"

section \<open>A manager at work\<close>

text \<open>
  The constructor, and the worlds used to run the theorems on concrete inputs: a manager
  in mock mode, one request created at time 1000 with a timeout of 60 seconds, and the
  same request with a wait begun on it.
\<close>

definition blank_request :: TwoFactorRequest where
  "blank_request =
     \<lparr>id_req = [], command = [], verificationCode = [], createdAtMs = 0, expiresAtMs = 0,
      status = Pending, sessionKey = None, agentId = None, channelId = None, userId = None,
      resolvedAtMs = None\<rparr>"

definition new_manager :: "TwoFactorConfig \<Rightarrow> world" where
  "new_manager cfg =
     \<lparr>config = cfg, pending = Map.empty, heap = (\<lambda>r. blank_request), next_ref = 0,
      timers = Map.empty, next_timer = 0, next_promise = 0, wakes = []\<rparr>"

definition demo_config :: TwoFactorConfig where
  "demo_config =
     \<lparr>enabled = True, timeoutSeconds = Some 60, authBaseUrl = ''https://gw.example'',
      codeLength = None,
      mock = Some \<lparr>enabled_mock = Some True, authUrl_mock = None, code_mock = Some '' abc234 ''\<rparr>\<rparr>"

definition demo_payload :: TwoFactorRequestPayload where
  "demo_payload =
     \<lparr>command_pl = ''sudo reboot'', sessionKey_pl = None, agentId_pl = None,
      channelId_pl = None, userId_pl = None\<rparr>"

definition demo_rnd :: "nat \<Rightarrow> 8 word" where
  "demo_rnd i = of_nat (37 * i + 250)"

definition demo_request :: TwoFactorRequest where
  "demo_request =
     \<lparr>id_req = ''req-1'', command = ''sudo reboot'', verificationCode = ''abc234'',
      createdAtMs = 1000, expiresAtMs = 61000, status = Pending, sessionKey = None,
      agentId = None, channelId = None, userId = None, resolvedAtMs = None\<rparr>"

definition demo_entry :: PendingEntry where
  "demo_entry = \<lparr>request = 0, resolve = 0, timer = 0\<rparr>"

definition created_world :: world where
  "created_world =
     (case create (new_manager demo_config) demo_payload 1000 ''req-1'' demo_rnd of
        Inl e \<Rightarrow> new_manager demo_config
      | Inr (r, w) \<Rightarrow> w)"

definition waiting_world :: world where
  "waiting_world = snd (waitForVerification created_world 0 1000)"

section \<open>Runs of the manager\<close>

text \<open>
  The operations a manager goes through: calls of its methods, with the clock readings
  and random values they consume, and the host running the callback of an armed timer.
  A call that raises, and the firing of a timer that is not armed, leave the world as it is.
\<close>

datatype op =
    Create TwoFactorRequestPayload int string "nat \<Rightarrow> 8 word"
  | WaitForVerification ref int
  | Verify string string int int
  | Cancel string
  | TimerFires timer_handle

fun exec :: "op \<Rightarrow> world \<Rightarrow> world" where
  "exec (Create payload now uuid rnd) w =
     (case create w payload now uuid rnd of Inl e \<Rightarrow> w | Inr (r, w') \<Rightarrow> w')"
| "exec (WaitForVerification req now) w = snd (waitForVerification w req now)"
| "exec (Verify rid code now now') w = snd (verify w rid code now now')"
| "exec (Cancel rid) w = snd (cancel w rid)"
| "exec (TimerFires t) w = (case fireTimer w t of None \<Rightarrow> w | Some w' \<Rightarrow> w')"

fun run :: "op list \<Rightarrow> world \<Rightarrow> world" where
  "run [] w = w"
| "run (x # xs) w = run xs (exec x w)"

text \<open>The status of the request at \<open>r\<close> before each operation of a run and at its end.\<close>

fun statuses :: "ref \<Rightarrow> op list \<Rightarrow> world \<Rightarrow> TwoFactorRequestStatus list" where
  "statuses r [] w = [status (heap w r)]"
| "statuses r (x # xs) w = status (heap w r) # statuses r xs (exec x w)"

fun changes :: "'a list \<Rightarrow> nat" where
  "changes (x # y # zs) = (if x = y then 0 else 1) + changes (y # zs)"
| "changes [x] = 0"
| "changes [] = 0"

fun is_wait_on :: "ref \<Rightarrow> op \<Rightarrow> bool" where
  "is_wait_on r (WaitForVerification req now) = (req = r)"
| "is_wait_on r x = False"

definition waits_on :: "ref \<Rightarrow> op list \<Rightarrow> nat" where
  "waits_on r ops = length (filter (is_wait_on r) ops)"

text \<open>
  No table entry and no armed timer refers to the request at \<open>r\<close>; and: the armed timers
  that refer to it are all the timer \<open>t\<close>, the entries that refer to it are all under
  its own id and hold \<open>t\<close>.
\<close>

definition unlinked :: "world \<Rightarrow> ref \<Rightarrow> bool" where
  "unlinked w r \<longleftrightarrow>
     (\<forall>t cb. timers w t = Some cb \<longrightarrow> cb_request cb \<noteq> r) \<and>
     (\<forall>k p. pending w k = Some p \<longrightarrow> request p \<noteq> r)"

definition linked_by :: "world \<Rightarrow> ref \<Rightarrow> timer_handle \<Rightarrow> bool" where
  "linked_by w r t \<longleftrightarrow>
     (\<forall>t' cb. timers w t' = Some cb \<and> cb_request cb = r \<longrightarrow> t' = t) \<and>
     (\<forall>k p. pending w k = Some p \<and> request p = r \<longrightarrow> k = id_req (heap w r) \<and> timer p = t)"

text \<open>
  A run that never starts a wait on a request carrying the id \<open>rid\<close>, the id being
  read from the request at the time of the call, as \<open>waitForVerification\<close> does.
\<close>

fun never_registers :: "string \<Rightarrow> op list \<Rightarrow> world \<Rightarrow> bool" where
  "never_registers rid [] w = True"
| "never_registers rid (x # xs) w =
     ((case x of WaitForVerification req now \<Rightarrow> id_req (heap w req) \<noteq> rid | _ \<Rightarrow> True)
      \<and> never_registers rid xs (exec x w))"

text \<open>
  The id \<open>rid\<close> is settled in \<open>w\<close>: in every world a later run leads to, as long as the
  id is not registered again, a submission for it is rejected as not found, a cancel
  returns \<open>false\<close>, both without any effect, and the timer \<open>t\<close> cannot fire.
\<close>

definition settled :: "world \<Rightarrow> string \<Rightarrow> timer_handle \<Rightarrow> bool" where
  "settled w rid t \<longleftrightarrow>
     (\<forall>ops. never_registers rid ops w \<longrightarrow>
        (\<forall>code now now'. verify (run ops w) rid code now now' =
           (\<lparr>success = False, error = Some ''Request not found or expired''\<rparr>, run ops w)) \<and>
        cancel (run ops w) rid = (False, run ops w) \<and>
        fireTimer (run ops w) t = None)"

text \<open>
  The terminal transition of the entry \<open>p\<close> under \<open>rid\<close>, from \<open>w\<close> to \<open>w'\<close>, with
  outcome \<open>b\<close>: the entry is removed, its timer is disarmed, \<open>resolve\<close> is called once,
  with \<open>b\<close>, and the id is settled.
\<close>

definition terminal_transition ::
  "world \<Rightarrow> string \<Rightarrow> PendingEntry \<Rightarrow> bool \<Rightarrow> world \<Rightarrow> bool"
where
  "terminal_transition w rid p b w' \<longleftrightarrow>
     pending w' = (pending w)(rid := None) \<and>
     timers w' = (timers w)(timer p := None) \<and>
     wakes w' = wakes w @ [(resolve p, b)] \<and>
     next_timer w' = next_timer w \<and>
     settled w' rid (timer p)"

text \<open>
  A run in which \<open>waitForVerification\<close> is only called on objects that \<open>create\<close> has
  returned before.
\<close>

fun waits_on_created :: "op list \<Rightarrow> world \<Rightarrow> bool" where
  "waits_on_created [] w = True"
| "waits_on_created (x # xs) w =
     ((case x of WaitForVerification req now \<Rightarrow> req < next_ref w | _ \<Rightarrow> True)
      \<and> waits_on_created xs (exec x w))"

text \<open>
  What the manager keeps true of its table, the armed timers and the calls of \<open>resolve\<close>:
  handles, promises and references in use have been allocated; the timer of an entry is
  armed, with the entry's request and \<open>resolve\<close>, and the entry is under the id of its
  request; two armed timers never share a promise; a promise that has been resolved has
  no armed timer; no promise has been resolved twice.
\<close>

definition consistent :: "world \<Rightarrow> bool" where
  "consistent w \<longleftrightarrow>
     (\<forall>t cb. timers w t = Some cb \<longrightarrow>
        t < next_timer w \<and> cb_resolve cb < next_promise w \<and> cb_request cb < next_ref w) \<and>
     (\<forall>k p. pending w k = Some p \<longrightarrow>
        (\<exists>cb. timers w (timer p) = Some cb \<and> cb_resolve cb = resolve p \<and>
              cb_request cb = request p) \<and>
        id_req (heap w (request p)) = k) \<and>
     (\<forall>t t' cb cb'. timers w t = Some cb \<and> timers w t' = Some cb' \<and>
        cb_resolve cb = cb_resolve cb' \<longrightarrow> t = t') \<and>
     (\<forall>q b. (q, b) \<in> set (wakes w) \<longrightarrow>
        q < next_promise w \<and> (\<forall>t cb. timers w t = Some cb \<longrightarrow> cb_resolve cb \<noteq> q)) \<and>
     distinct (map fst (wakes w))"

definition demo_payload2 :: TwoFactorRequestPayload where
  "demo_payload2 =
     \<lparr>command_pl = ''rm -rf /srv'', sessionKey_pl = None, agentId_pl = None,
      channelId_pl = None, userId_pl = None\<rparr>"

definition double_wait_ops :: "op list" where
  "double_wait_ops =
     [Create demo_payload 1000 ''req-1'' demo_rnd, WaitForVerification 0 1000,
      WaitForVerification 0 1500, Verify ''req-1'' ''abc234'' 2000 2001, TimerFires 0,
      Cancel ''req-1'']"

definition double_wait_world :: world where
  "double_wait_world =
     run [Create demo_payload 1000 ''req-1'' demo_rnd, WaitForVerification 0 1000,
          WaitForVerification 0 1500] (new_manager demo_config)"

text \<open>Runs on the demonstration worlds, and a detector configuration.\<close>

definition demo_ops :: "op list" where
  "demo_ops = [WaitForVerification 0 1000, Verify ''req-1'' ''000000'' 2000 2001,
               TimerFires 0, Verify ''req-1'' ''abc234'' 3000 3001, Cancel ''req-1'']"

definition later_ops :: "op list" where
  "later_ops = [TimerFires 0, Verify ''req-1'' ''abc234'' 3000 3001, Cancel ''req-1'']"




section \<open>Basic facts\<close>

lemmas effect_defs =
  clearTimeout_def pending_delete_def set_status_def set_resolvedAtMs_def call_resolve_def

lemma trim_demo_code: "trim '' abc234 '' = ''abc234''"
  by code_simp


lemma upper_trim_wrong_code: "toUpperCase (trim ''000000'') = ''000000''"
  by code_simp

lemma created_world_eq:
  "created_world =
     \<lparr>config = demo_config, pending = Map.empty,
      heap = (\<lambda>r. blank_request)(0 := demo_request), next_ref = Suc 0,
      timers = Map.empty, next_timer = 0, next_promise = 0, wakes = []\<rparr>"
  by (simp add: created_world_def create_def new_manager_def mockCode_def demo_config_def
      demo_payload_def demo_request_def trim_demo_code)

lemma waiting_world_eq:
  "waiting_world =
     \<lparr>config = demo_config, pending = [''req-1'' \<mapsto> demo_entry],
      heap = (\<lambda>r. blank_request)(0 := demo_request), next_ref = Suc 0,
      timers = [0 \<mapsto> \<lparr>cb_request = 0, cb_resolve = 0, cb_delay = 60000\<rparr>],
      next_timer = Suc 0, next_promise = Suc 0, wakes = []\<rparr>"
  by (simp add: waiting_world_def created_world_eq waitForVerification_def demo_request_def
      demo_entry_def)

lemma upper_trim_stored_code: "toUpperCase (trim ''abc234'') = ''ABC234''"
  by code_simp

section \<open>Cancelling\<close>



section \<open>Submitting a code\<close>



text \<open>
  C6. For an id with an entry whose deadline has passed when a code is submitted, the
  submission performs the expire transition (timer cleared, entry removed, status expired,
  waiter woken with \<open>false\<close>) and fails with the expired error, whatever the code.
\<close>

theorem submit_after_deadline_expires:
  assumes "pending w rid = Some p"
    and "expiresAtMs (heap w (request p)) < now"
  shows "\<exists>w'. verify w rid code now now' =
                 (\<lparr>success = False, error = Some ''Request expired''\<rparr>, w') \<and>
              timers w' = (timers w)(timer p := None) \<and>
              pending w' = (pending w)(rid := None) \<and>
              heap w' = (heap w)(request p := (heap w (request p))\<lparr>status := Expired\<rparr>) \<and>
              wakes w' = wakes w @ [(resolve p, False)]"
  using assms by (simp add: verify_def effect_defs)

theorem submit_after_deadline_expires_witness:
  "pending waiting_world ''req-1'' = Some demo_entry \<and>
   expiresAtMs (heap waiting_world (request demo_entry)) < 61001 \<and>
   fst (verify waiting_world ''req-1'' ''ABC234'' 61001 61002) =
     \<lparr>success = False, error = Some ''Request expired''\<rparr> \<and>
   status (heap (snd (verify waiting_world ''req-1'' ''ABC234'' 61001 61002)) 0) = Expired \<and>
   pending (snd (verify waiting_world ''req-1'' ''ABC234'' 61001 61002)) ''req-1'' = None \<and>
   timers (snd (verify waiting_world ''req-1'' ''ABC234'' 61001 61002)) 0 = None \<and>
   wakes (snd (verify waiting_world ''req-1'' ''ABC234'' 61001 61002)) = [(0, False)]"
  using submit_after_deadline_expires [of waiting_world "''req-1''" demo_entry 61001
      "''ABC234''" 61002]
  by (auto simp add: waiting_world_eq demo_entry_def demo_request_def)

text \<open>
  C10. At the instant \<open>now = expiresAtMs\<close> the two checks disagree:
  \<open>waitForVerification\<close> settles at once as expired, while \<open>verify\<close> on an entry
  still accepts a matching code.
\<close>

theorem boundary_instant_checks_disagree:
  "(expiresAtMs (heap w req) = now \<longrightarrow>
      waitForVerification w req now =
        (Settled False, w\<lparr>heap := (heap w)(req := (heap w req)\<lparr>status := Expired\<rparr>)\<rparr>)) \<and>
   (\<forall>p. pending w rid = Some p \<and> expiresAtMs (heap w (request p)) = now \<and>
        toUpperCase (trim code) = toUpperCase (trim (verificationCode (heap w (request p)))) \<longrightarrow>
        fst (verify w rid code now now') = \<lparr>success = True, error = None\<rparr> \<and>
        status (heap (snd (verify w rid code now now')) (request p)) = Verified \<and>
        pending (snd (verify w rid code now now')) rid = None)"
  by (simp add: waitForVerification_def verify_def effect_defs)

theorem boundary_instant_checks_disagree_witness:
  "expiresAtMs (heap waiting_world 0) = 61000 \<and>
   pending waiting_world ''req-1'' = Some demo_entry \<and>
   fst (waitForVerification created_world 0 61000) = Settled False \<and>
   status (heap (snd (waitForVerification created_world 0 61000)) 0) = Expired \<and>
   fst (verify waiting_world ''req-1'' ''abc234'' 61000 61000) = \<lparr>success = True, error = None\<rparr> \<and>
   status (heap (snd (verify waiting_world ''req-1'' ''abc234'' 61000 61000)) 0) = Verified"
  using boundary_instant_checks_disagree [of created_world 0 61000 "''req-1''" "''abc234''" 61000]
    boundary_instant_checks_disagree [of waiting_world 0 61000 "''req-1''" "''abc234''" 61000]
  by (simp add: waiting_world_eq created_world_eq demo_entry_def demo_request_def
      upper_trim_stored_code)

section \<open>Generated and mock codes\<close>

declare code_loop.simps [simp del]






section \<open>Classification\<close>











section \<open>Creating a request\<close>

lemma create_demo:
  "create (new_manager demo_config) demo_payload 1000 ''req-1'' demo_rnd = Inr (0, created_world)"
  by (simp add: created_world_eq create_def new_manager_def mockCode_def demo_config_def
      demo_payload_def demo_request_def trim_demo_code)

text \<open>
  C3, as stated, fails: on a new manager the request that \<open>create\<close> returns is not
  in the table, and \<open>getRequest\<close> on its id returns \<open>null\<close>.
\<close>

theorem created_request_not_in_table_counterexample:
  "create (new_manager demo_config) demo_payload 1000 ''req-1'' demo_rnd = Inr (0, created_world) \<and>
   id_req (heap created_world 0) = ''req-1'' \<and>
   getRequest created_world ''req-1'' = None \<and>
   getRequest created_world ''req-1'' \<noteq> Some 0"
  by (simp add: created_world_eq create_def new_manager_def mockCode_def demo_config_def
      demo_payload_def demo_request_def trim_demo_code getRequest_def)

text \<open>
  C3, amended. \<open>create\<close> registers nothing: it leaves the armed timers and the table as
  they were, so \<open>getRequest\<close> on the new id answers as before the call, with \<open>null\<close>
  when the id was not in the table. The request has the given id and is pending, and
  \<open>getRequest\<close> returns it once \<open>waitForVerification\<close> has been called on it before
  its deadline.
\<close>

theorem create_registers_nothing:
  assumes "create w payload now uuid rnd = Inr (r, w')"
  shows "timers w' = timers w \<and> pending w' = pending w \<and>
         id_req (heap w' r) = uuid \<and> status (heap w' r) = Pending \<and>
         getRequest w' uuid = getRequest w uuid \<and>
         (pending w uuid = None \<longrightarrow> getRequest w' uuid = None) \<and>
         (\<forall>t. t < expiresAtMs (heap w' r) \<longrightarrow>
              getRequest (snd (waitForVerification w' r t)) uuid = Some r)"
  using assms
  by (auto simp add: create_def getRequest_def waitForVerification_def Let_def
      split: sum.splits option.splits)

theorem create_registers_nothing_witness:
  "create (new_manager demo_config) demo_payload 1000 ''req-1'' demo_rnd = Inr (0, created_world) \<and>
   pending (new_manager demo_config) ''req-1'' = None \<and>
   (1000::int) < expiresAtMs (heap created_world 0) \<and>
   timers created_world = timers (new_manager demo_config) \<and>
   pending created_world = pending (new_manager demo_config) \<and>
   getRequest created_world ''req-1'' = None \<and>
   getRequest (snd (waitForVerification created_world 0 1000)) ''req-1'' = Some 0"
proof -
  have e: "(1000::int) < expiresAtMs (heap created_world 0)"
    by (simp add: created_world_eq demo_request_def)
  have n: "pending (new_manager demo_config) ''req-1'' = None"
    by (simp add: new_manager_def)
  from create_registers_nothing [OF create_demo] create_demo e n show ?thesis by auto
qed

section \<open>Waiting on a request past its deadline\<close>

text \<open>
  C7. When the deadline of a request is not in the future, \<open>waitForVerification\<close>
  settles at once with \<open>false\<close>, sets the status to expired, arms no timer and adds no
  table entry. A later submission for its id fails: with \<open>Request not found or expired\<close>
  when the id has no entry, and with \<open>Request expired\<close> when an earlier wait had
  registered the request and the submission comes after the deadline.
\<close>

theorem wait_on_expired_request:
  assumes "expiresAtMs (heap w req) \<le> now"
  shows "\<exists>w'. waitForVerification w req now = (Settled False, w') \<and>
              heap w' = (heap w)(req := (heap w req)\<lparr>status := Expired\<rparr>) \<and>
              timers w' = timers w \<and> pending w' = pending w \<and> wakes w' = wakes w \<and>
              (pending w (id_req (heap w req)) = None \<longrightarrow>
                 verify w' (id_req (heap w req)) code t t' =
                   (\<lparr>success = False, error = Some ''Request not found or expired''\<rparr>, w')) \<and>
              (\<forall>p. pending w (id_req (heap w req)) = Some p \<and> request p = req \<and>
                   expiresAtMs (heap w req) < t \<longrightarrow>
                 fst (verify w' (id_req (heap w req)) code t t') =
                   \<lparr>success = False, error = Some ''Request expired''\<rparr>)"
  using assms by (auto simp add: waitForVerification_def verify_def set_status_def)

theorem wait_on_expired_request_witness:
  "expiresAtMs (heap created_world 0) \<le> 70000 \<and>
   pending created_world (id_req (heap created_world 0)) = None \<and>
   fst (waitForVerification created_world 0 70000) = Settled False \<and>
   status (heap (snd (waitForVerification created_world 0 70000)) 0) = Expired \<and>
   timers (snd (waitForVerification created_world 0 70000)) = Map.empty \<and>
   pending (snd (waitForVerification created_world 0 70000)) = Map.empty \<and>
   fst (verify (snd (waitForVerification created_world 0 70000)) ''req-1'' ''abc234'' 70001 70002)
     = \<lparr>success = False, error = Some ''Request not found or expired''\<rparr> \<and>
   expiresAtMs (heap waiting_world 0) \<le> 70000 \<and>
   pending waiting_world (id_req (heap waiting_world 0)) = Some demo_entry \<and>
   request demo_entry = 0 \<and> expiresAtMs (heap waiting_world 0) < 70001 \<and>
   fst (waitForVerification waiting_world 0 70000) = Settled False \<and>
   fst (verify (snd (waitForVerification waiting_world 0 70000)) ''req-1'' ''abc234'' 70001 70002)
     = \<lparr>success = False, error = Some ''Request expired''\<rparr>"
proof -
  have h: "expiresAtMs (heap created_world 0) \<le> 70000"
    by (simp add: created_world_eq demo_request_def)
  have n: "pending created_world (id_req (heap created_world 0)) = None"
    by (simp add: created_world_eq)
  have i: "id_req (heap created_world 0) = ''req-1''"
    by (simp add: created_world_eq demo_request_def)
  have t: "timers created_world = Map.empty" "pending created_world = Map.empty"
    by (simp_all add: created_world_eq)
  from wait_on_expired_request [OF h, of "''abc234''" 70001 70002] h n i t
  have a: "fst (waitForVerification created_world 0 70000) = Settled False \<and>
      status (heap (snd (waitForVerification created_world 0 70000)) 0) = Expired \<and>
      timers (snd (waitForVerification created_world 0 70000)) = Map.empty \<and>
      pending (snd (waitForVerification created_world 0 70000)) = Map.empty \<and>
      fst (verify (snd (waitForVerification created_world 0 70000)) ''req-1'' ''abc234''
        70001 70002) = \<lparr>success = False, error = Some ''Request not found or expired''\<rparr>"
    by auto
  have h': "expiresAtMs (heap waiting_world 0) \<le> 70000"
    and l: "expiresAtMs (heap waiting_world 0) < 70001"
    and i': "id_req (heap waiting_world 0) = ''req-1''"
    by (simp_all add: waiting_world_eq demo_request_def)
  have p: "pending waiting_world (id_req (heap waiting_world 0)) = Some demo_entry"
    by (simp add: waiting_world_eq demo_request_def)
  have q: "request demo_entry = 0"
    by (simp add: demo_entry_def)
  from wait_on_expired_request [OF h', of "''abc234''" 70001 70002] p q l i'
  have b: "fst (waitForVerification waiting_world 0 70000) = Settled False \<and>
      fst (verify (snd (waitForVerification waiting_world 0 70000)) ''req-1'' ''abc234''
        70001 70002) = \<lparr>success = False, error = Some ''Request expired''\<rparr>"
    by auto
  from h n a h' p q l b show ?thesis by simp
qed

section \<open>The terminal transition\<close>

lemma absent_exec:
  assumes "pending w rid = None" "timers w t = None" "t < next_timer w"
    and "case x of WaitForVerification req now \<Rightarrow> id_req (heap w req) \<noteq> rid | _ \<Rightarrow> True"
  shows "pending (exec x w) rid = None \<and> timers (exec x w) t = None \<and> t < next_timer (exec x w)"
proof (cases x)
  case (Create payload now uuid rnd)
  with assms show ?thesis
    by (auto simp add: create_def Let_def split: sum.splits option.splits)
next
  case (WaitForVerification req now)
  with assms show ?thesis
    by (auto simp add: waitForVerification_def Let_def effect_defs)
next
  case (Verify k code now now')
  with assms show ?thesis
    by (auto simp add: verify_def Let_def effect_defs split: option.splits)
next
  case (Cancel k)
  with assms show ?thesis
    by (auto simp add: cancel_def effect_defs split: option.splits)
next
  case (TimerFires u)
  with assms show ?thesis
    by (auto simp add: fireTimer_def timerCallback_def effect_defs split: option.splits)
qed

lemma absent_run:
  "pending w rid = None \<Longrightarrow> timers w t = None \<Longrightarrow> t < next_timer w \<Longrightarrow>
   never_registers rid ops w \<Longrightarrow>
   pending (run ops w) rid = None \<and> timers (run ops w) t = None"
proof (induction ops arbitrary: w)
  case Nil
  then show ?case by simp
next
  case (Cons x xs)
  from Cons.prems(4)
  have g: "case x of WaitForVerification req now \<Rightarrow> id_req (heap w req) \<noteq> rid | _ \<Rightarrow> True"
    and r: "never_registers rid xs (exec x w)" by simp_all
  from absent_exec [OF Cons.prems(1,2,3) g] Cons.IH [OF _ _ _ r] show ?case by simp
qed

lemma absent_settled:
  assumes "pending w rid = None" "timers w t = None" "t < next_timer w"
  shows "settled w rid t"
  unfolding settled_def
proof (intro allI impI)
  fix ops assume "never_registers rid ops w"
  from absent_run [OF assms this]
  show "(\<forall>code now now'. verify (run ops w) rid code now now' =
           (\<lparr>success = False, error = Some ''Request not found or expired''\<rparr>, run ops w)) \<and>
        cancel (run ops w) rid = (False, run ops w) \<and>
        fireTimer (run ops w) t = None"
    by (simp add: verify_def cancel_def fireTimer_def)
qed

lemma terminal_transitionI:
  assumes "pending w' = (pending w)(rid := None)" "timers w' = (timers w)(timer p := None)"
    "wakes w' = wakes w @ [(resolve p, b)]" "next_timer w' = next_timer w"
    "timer p < next_timer w"
  shows "terminal_transition w rid p b w'"
  unfolding terminal_transition_def using assms
  by (auto intro: absent_settled)

lemma consistent_new_manager: "consistent (new_manager cfg)"
  by (simp add: consistent_def new_manager_def)

lemma consistent_timer:
  "consistent w \<Longrightarrow> timers w t = Some cb \<Longrightarrow>
   t < next_timer w \<and> cb_resolve cb < next_promise w \<and> cb_request cb < next_ref w"
  by (simp add: consistent_def)

lemma consistent_entry:
  "consistent w \<Longrightarrow> pending w k = Some p \<Longrightarrow>
   (\<exists>cb. timers w (timer p) = Some cb \<and> cb_resolve cb = resolve p \<and> cb_request cb = request p)
   \<and> id_req (heap w (request p)) = k"
  by (simp add: consistent_def)

lemma consistent_promise:
  "consistent w \<Longrightarrow> timers w t = Some cb \<Longrightarrow> timers w t' = Some cb' \<Longrightarrow>
   cb_resolve cb = cb_resolve cb' \<Longrightarrow> t = t'"
  unfolding consistent_def by blast

lemma consistent_woken:
  "consistent w \<Longrightarrow> (q, b) \<in> set (wakes w) \<Longrightarrow>
   q < next_promise w \<and> (\<forall>t cb. timers w t = Some cb \<longrightarrow> cb_resolve cb \<noteq> q)"
  unfolding consistent_def by blast

lemma consistent_distinct: "consistent w \<Longrightarrow> distinct (map fst (wakes w))"
  by (simp add: consistent_def)

lemma consistent_transition:
  assumes c: "consistent w"
    and tm: "timers w t = Some cb"
    and t': "timers w' = (timers w)(t := None)"
    and p': "pending w' = (pending w)(k := None)"
    and k': "wakes w' = wakes w @ [(cb_resolve cb, b)]"
    and n: "next_timer w' = next_timer w" "next_promise w' = next_promise w"
       "next_ref w' = next_ref w"
    and i: "\<And>x. id_req (heap w' x) = id_req (heap w x)"
    and key: "\<And>j p. pending w j = Some p \<Longrightarrow> timer p = t \<Longrightarrow> j = k"
  shows "consistent w'"
  unfolding consistent_def
proof (intro conjI allI impI)
  fix u c' assume a: "timers w' u = Some c'"
  with t' have "timers w u = Some c'" by (auto split: if_splits)
  from consistent_timer [OF c this] n
  show "u < next_timer w'" "cb_resolve c' < next_promise w'" "cb_request c' < next_ref w'"
    by simp_all
next
  fix j p assume a: "pending w' j = Some p"
  with p' have e: "pending w j = Some p" and jk: "j \<noteq> k" by (auto split: if_splits)
  from key [OF e] jk have "timer p \<noteq> t" by blast
  with consistent_entry [OF c e] t'
  show "\<exists>cb. timers w' (timer p) = Some cb \<and> cb_resolve cb = resolve p \<and>
      cb_request cb = request p" by simp
  from consistent_entry [OF c e] i show "id_req (heap w' (request p)) = j" by simp
next
  fix u u' c1 c2
  assume "timers w' u = Some c1 \<and> timers w' u' = Some c2 \<and> cb_resolve c1 = cb_resolve c2"
  with t' have "timers w u = Some c1" "timers w u' = Some c2" "cb_resolve c1 = cb_resolve c2"
    by (auto split: if_splits)
  with consistent_promise [OF c] show "u = u'" by blast
next
  fix q b' assume a: "(q, b') \<in> set (wakes w')"
  show "q < next_promise w'"
  proof (cases "(q, b') \<in> set (wakes w)")
    case True
    with consistent_woken [OF c] n show ?thesis by simp
  next
    case False
    with a k' have "q = cb_resolve cb" by simp
    with consistent_timer [OF c tm] n show ?thesis by simp
  qed
  fix u c' assume b: "timers w' u = Some c'"
  with t' have o: "timers w u = Some c'" and ut: "u \<noteq> t" by (auto split: if_splits)
  show "cb_resolve c' \<noteq> q"
  proof (cases "(q, b') \<in> set (wakes w)")
    case True
    with consistent_woken [OF c] o show ?thesis by blast
  next
    case False
    with a k' have "q = cb_resolve cb" by simp
    with consistent_promise [OF c o tm] ut show ?thesis by blast
  qed
next
  from consistent_woken [OF c] tm have "cb_resolve cb \<notin> fst ` set (wakes w)"
    by fastforce
  with consistent_distinct [OF c] k' show "distinct (map fst (wakes w'))"
    by simp
qed


lemma consistent_exec:
  assumes c: "consistent w"
    and g: "case x of WaitForVerification req now \<Rightarrow> req < next_ref w | _ \<Rightarrow> True"
  shows "consistent (exec x w)"
proof (cases x)
  case (Create payload now uuid rnd)
  show ?thesis
  proof (cases "create w payload now uuid rnd")
    case (Inl e)
    with Create c show ?thesis by simp
  next
    case (Inr rw)
    then obtain vc where
      e: "exec x w = w\<lparr>heap := (heap w)(next_ref w := vc), next_ref := Suc (next_ref w)\<rparr>"
      using Create by (auto simp add: create_def Let_def split: sum.splits)
    have "id_req (heap (exec x w) (request p)) = k" if "pending w k = Some p" for k p
    proof -
      from consistent_entry [OF c that] obtain cb where
        "timers w (timer p) = Some cb" "cb_request cb = request p"
        and "id_req (heap w (request p)) = k" by blast
      with consistent_timer [OF c, of "timer p" cb]
      have "request p < next_ref w" "id_req (heap w (request p)) = k" by simp_all
      with e show ?thesis by simp
    qed
    with c e show ?thesis
      unfolding consistent_def by (simp add: less_Suc_eq)
  qed
next
  case (WaitForVerification req now)
  with g have a: "req < next_ref w" by simp
  show ?thesis
  proof (cases "expiresAtMs (heap w req) - now \<le> 0")
    case True
    have i: "id_req (heap (set_status req Expired w) y) = id_req (heap w y)" for y
      by (simp add: set_status_def)
    have "consistent (set_status req Expired w)"
      using c unfolding consistent_def i by (simp add: set_status_def)
    with True WaitForVerification show ?thesis
      by (simp add: waitForVerification_def)
  next
    case False
    with WaitForVerification
    have e: "exec x w = w\<lparr>timers := (timers w)(next_timer w \<mapsto>
          \<lparr>cb_request = req, cb_resolve = next_promise w,
           cb_delay = expiresAtMs (heap w req) - now\<rparr>),
        pending := (pending w)(id_req (heap w req) \<mapsto>
          \<lparr>request = req, resolve = next_promise w, timer = next_timer w\<rparr>),
        next_timer := Suc (next_timer w), next_promise := Suc (next_promise w)\<rparr>"
      by (simp add: waitForVerification_def Let_def)
    show ?thesis
      unfolding consistent_def
    proof (intro conjI allI impI)
      fix t cb assume "timers (exec x w) t = Some cb"
      with e a consistent_timer [OF c, of t cb]
      show "t < next_timer (exec x w)" "cb_resolve cb < next_promise (exec x w)"
        "cb_request cb < next_ref (exec x w)"
        by (auto split: if_splits)
    next
      fix k p assume h: "pending (exec x w) k = Some p"
      show "\<exists>cb. timers (exec x w) (timer p) = Some cb \<and> cb_resolve cb = resolve p \<and>
          cb_request cb = request p"
      proof (cases "k = id_req (heap w req)")
        case True
        with h e show ?thesis by auto
      next
        case False
        with h e have o: "pending w k = Some p" by simp
        from consistent_entry [OF c o] consistent_timer [OF c]
        have "timer p < next_timer w" by blast
        with consistent_entry [OF c o] e show ?thesis by simp
      qed
      show "id_req (heap (exec x w) (request p)) = k"
      proof (cases "k = id_req (heap w req)")
        case True
        with h e show ?thesis by auto
      next
        case False
        with h e have o: "pending w k = Some p" by simp
        with consistent_entry [OF c o] e show ?thesis by simp
      qed
    next
      fix t t' cb cb'
      assume h: "timers (exec x w) t = Some cb \<and> timers (exec x w) t' = Some cb' \<and>
        cb_resolve cb = cb_resolve cb'"
      show "t = t'"
      proof (cases "t = next_timer w \<or> t' = next_timer w")
        case True
        with h e consistent_timer [OF c, of t cb] consistent_timer [OF c, of t' cb']
        show ?thesis by (auto split: if_splits)
      next
        case False
        with h e consistent_promise [OF c, of t cb t' cb'] show ?thesis by simp
      qed
    next
      fix q b assume h: "(q, b) \<in> set (wakes (exec x w))"
      with e have o: "(q, b) \<in> set (wakes w)" by simp
      from consistent_woken [OF c o] e show "q < next_promise (exec x w)" by simp
      fix t cb assume "timers (exec x w) t = Some cb"
      with e consistent_woken [OF c o] show "cb_resolve cb \<noteq> q"
        by (auto split: if_splits)
    next
      from consistent_distinct [OF c] e show "distinct (map fst (wakes (exec x w)))" by simp
    qed
  qed
next
  case (Verify rid code now now')
  show ?thesis
  proof (cases "pending w rid")
    case None
    with Verify c show ?thesis by (simp add: verify_def)
  next
    case (Some p)
    from consistent_entry [OF c Some] obtain cb where
      tm: "timers w (timer p) = Some cb" and r: "cb_resolve cb = resolve p"
      and q: "cb_request cb = request p" and k: "id_req (heap w (request p)) = rid"
      by blast
    show ?thesis
    proof (cases "exec x w = w")
      case True
      with c show ?thesis by simp
    next
      case False
      then obtain b where wk: "wakes (exec x w) = wakes w @ [(cb_resolve cb, b)]"
        using Verify Some r by (auto simp add: verify_def Let_def effect_defs split: if_splits)
      show ?thesis
      proof (rule consistent_transition [OF c tm _ _ wk])
        from False Verify Some
        show "timers (exec x w) = (timers w)(timer p := None)"
          "pending (exec x w) = (pending w)(rid := None)"
          "next_timer (exec x w) = next_timer w" "next_promise (exec x w) = next_promise w"
          "next_ref (exec x w) = next_ref w"
          by (auto simp add: verify_def Let_def effect_defs split: if_splits)
        from Verify Some show "id_req (heap (exec x w) y) = id_req (heap w y)" for y
          by (auto simp add: verify_def Let_def effect_defs split: if_splits)
      next
        fix j e assume o: "pending w j = Some e" and "timer e = timer p"
        with consistent_entry [OF c o] tm q k show "j = rid" by auto
      qed
    qed
  qed
next
  case (Cancel rid)
  show ?thesis
  proof (cases "pending w rid")
    case None
    with Cancel c show ?thesis by (simp add: cancel_def)
  next
    case (Some p)
    from consistent_entry [OF c Some] obtain cb where
      tm: "timers w (timer p) = Some cb" and r: "cb_resolve cb = resolve p"
      and q: "cb_request cb = request p" and k: "id_req (heap w (request p)) = rid"
      by blast
    have wk: "wakes (exec x w) = wakes w @ [(cb_resolve cb, False)]"
      using Cancel Some r by (simp add: cancel_def effect_defs)
    show ?thesis
    proof (rule consistent_transition [OF c tm _ _ wk])
      from Cancel Some
      show "timers (exec x w) = (timers w)(timer p := None)"
        "pending (exec x w) = (pending w)(rid := None)"
        "next_timer (exec x w) = next_timer w" "next_promise (exec x w) = next_promise w"
        "next_ref (exec x w) = next_ref w"
        by (simp_all add: cancel_def effect_defs)
      from Cancel Some show "id_req (heap (exec x w) y) = id_req (heap w y)" for y
        by (simp add: cancel_def effect_defs)
    next
      fix j e assume o: "pending w j = Some e" and "timer e = timer p"
      with consistent_entry [OF c o] tm q k show "j = rid" by auto
    qed
  qed
next
  case (TimerFires t)
  show ?thesis
  proof (cases "timers w t")
    case None
    with TimerFires c show ?thesis by (simp add: fireTimer_def)
  next
    case (Some cb)
    have wk: "wakes (exec x w) = wakes w @ [(cb_resolve cb, False)]"
      using TimerFires Some by (simp add: fireTimer_def timerCallback_def effect_defs)
    show ?thesis
    proof (rule consistent_transition [OF c Some _ _ wk])
      from TimerFires Some
      show "timers (exec x w) = (timers w)(t := None)"
        "pending (exec x w) = (pending w)(id_req (heap w (cb_request cb)) := None)"
        "next_timer (exec x w) = next_timer w" "next_promise (exec x w) = next_promise w"
        "next_ref (exec x w) = next_ref w"
        by (simp_all add: fireTimer_def timerCallback_def effect_defs)
      from TimerFires Some show "id_req (heap (exec x w) y) = id_req (heap w y)" for y
        by (simp add: fireTimer_def timerCallback_def effect_defs)
    next
      fix j e assume o: "pending w j = Some e" and "timer e = t"
      with consistent_entry [OF c o] Some show "j = id_req (heap w (cb_request cb))" by auto
    qed
  qed
qed

lemma consistent_run:
  "consistent w \<Longrightarrow> waits_on_created ops w \<Longrightarrow> consistent (run ops w)"
proof (induction ops arbitrary: w)
  case Nil
  then show ?case by simp
next
  case (Cons x xs)
  from Cons.prems(2)
  have g: "case x of WaitForVerification req now \<Rightarrow> req < next_ref w | _ \<Rightarrow> True"
    and r: "waits_on_created xs (exec x w)" by simp_all
  from Cons.IH [OF consistent_exec [OF Cons.prems(1) g] r] show ?case by simp
qed

lemma double_wait_world_eq:
  "double_wait_world =
     \<lparr>config = demo_config,
      pending = [''req-1'' \<mapsto> \<lparr>request = 0, resolve = 1, timer = 1\<rparr>],
      heap = (\<lambda>r. blank_request)(0 := demo_request), next_ref = Suc 0,
      timers = [0 \<mapsto> \<lparr>cb_request = 0, cb_resolve = 0, cb_delay = 60000\<rparr>,
                1 \<mapsto> \<lparr>cb_request = 0, cb_resolve = 1, cb_delay = 59500\<rparr>],
      next_timer = 2, next_promise = 2, wakes = []\<rparr>"
  by (simp add: double_wait_world_def new_manager_def create_def mockCode_def demo_config_def
      demo_payload_def demo_request_def trim_demo_code waitForVerification_def Let_def
      numeral_2_eq_2)

lemma double_wait_run:
  "waits_on_created double_wait_ops (new_manager demo_config) \<and>
   wakes (run double_wait_ops (new_manager demo_config)) = [(1, True), (0, False)] \<and>
   status (heap (run double_wait_ops (new_manager demo_config)) 0) = Expired"
  by (simp add: double_wait_ops_def new_manager_def create_def mockCode_def demo_config_def
      demo_payload_def trim_demo_code waitForVerification_def verify_def cancel_def
      fireTimer_def timerCallback_def effect_defs upper_trim_stored_code Let_def)

text \<open>
  C1, as stated, fails: \<open>waitForVerification\<close> is called twice on one request, which
  leaves the timer of the first call armed; a matching code is then submitted and performs
  the terminal transition; the first timer still fires afterwards, sets the status of the
  verified request to expired and wakes the first waiter with \<open>false\<close>.
\<close>

theorem deadline_fires_after_verified_counterexample:
  "fst (verify double_wait_world ''req-1'' ''abc234'' 2000 2001) =
     \<lparr>success = True, error = None\<rparr> \<and>
   status (heap (snd (verify double_wait_world ''req-1'' ''abc234'' 2000 2001)) 0) = Verified \<and>
   pending (snd (verify double_wait_world ''req-1'' ''abc234'' 2000 2001)) ''req-1'' = None \<and>
   wakes (snd (verify double_wait_world ''req-1'' ''abc234'' 2000 2001)) = [(1, True)] \<and>
   timers (snd (verify double_wait_world ''req-1'' ''abc234'' 2000 2001)) 0 =
     Some \<lparr>cb_request = 0, cb_resolve = 0, cb_delay = 60000\<rparr> \<and>
   status (heap (exec (TimerFires 0)
     (snd (verify double_wait_world ''req-1'' ''abc234'' 2000 2001))) 0) = Expired \<and>
   wakes (exec (TimerFires 0) (snd (verify double_wait_world ''req-1'' ''abc234'' 2000 2001))) =
     [(1, True), (0, False)]"
  by (simp add: double_wait_world_eq verify_def fireTimer_def timerCallback_def effect_defs
      demo_request_def upper_trim_stored_code Let_def)

text \<open>
  C1, amended. For an id with an entry \<open>p\<close> in the table, each of: a cancel, a submission
  after the deadline, a submission of a matching code not after the deadline, and the
  firing of the entry's own timer, performs the terminal transition of the entry: the
  entry is removed, its timer is disarmed, and \<open>resolve\<close> is called once. After it the
  id is settled: until a wait registers the id again, every submission for it fails with
  the not-found error, every cancel returns \<open>false\<close>, neither has an effect, and the
  entry's timer cannot fire. So no second one of the four performs the transition of the
  entry. And whatever run a new manager goes through, with waits on created requests
  only, no waiter is woken twice.
\<close>

theorem one_terminal_transition:
  assumes "pending w rid = Some p" and "timer p < next_timer w"
  shows "(fst (cancel w rid) = True \<and>
          terminal_transition w rid p False (snd (cancel w rid))) \<and>
         (expiresAtMs (heap w (request p)) < late \<longrightarrow>
            fst (verify w rid code1 late late') =
              \<lparr>success = False, error = Some ''Request expired''\<rparr> \<and>
            terminal_transition w rid p False (snd (verify w rid code1 late late'))) \<and>
         (now \<le> expiresAtMs (heap w (request p)) \<and>
          toUpperCase (trim code) = toUpperCase (trim (verificationCode (heap w (request p)))) \<longrightarrow>
            fst (verify w rid code now now') = \<lparr>success = True, error = None\<rparr> \<and>
            terminal_transition w rid p True (snd (verify w rid code now now'))) \<and>
         ((\<exists>cb. timers w (timer p) = Some cb \<and> cb_request cb = request p \<and>
                cb_resolve cb = resolve p) \<and> id_req (heap w (request p)) = rid \<longrightarrow>
            (\<exists>w'. fireTimer w (timer p) = Some w' \<and> terminal_transition w rid p False w')) \<and>
         (waits_on_created ops (new_manager cfg) \<longrightarrow>
            distinct (map fst (wakes (run ops (new_manager cfg)))))"
proof (intro conjI impI)
  show "fst (cancel w rid) = True"
    using assms by (simp add: cancel_def)
  show "terminal_transition w rid p False (snd (cancel w rid))"
    using assms by (auto simp add: cancel_def effect_defs intro!: terminal_transitionI)
next
  assume "expiresAtMs (heap w (request p)) < late"
  with assms
  show "fst (verify w rid code1 late late') = \<lparr>success = False, error = Some ''Request expired''\<rparr>"
    and "terminal_transition w rid p False (snd (verify w rid code1 late late'))"
    by (auto simp add: verify_def effect_defs intro!: terminal_transitionI)
next
  assume "now \<le> expiresAtMs (heap w (request p)) \<and>
    toUpperCase (trim code) = toUpperCase (trim (verificationCode (heap w (request p))))"
  with assms
  show "fst (verify w rid code now now') = \<lparr>success = True, error = None\<rparr>"
    and "terminal_transition w rid p True (snd (verify w rid code now now'))"
    by (auto simp add: verify_def effect_defs intro!: terminal_transitionI)
next
  assume "(\<exists>cb. timers w (timer p) = Some cb \<and> cb_request cb = request p \<and>
      cb_resolve cb = resolve p) \<and> id_req (heap w (request p)) = rid"
  with assms
  show "\<exists>w'. fireTimer w (timer p) = Some w' \<and> terminal_transition w rid p False w'"
    by (auto simp add: fireTimer_def timerCallback_def effect_defs intro!: terminal_transitionI)
next
  assume "waits_on_created ops (new_manager cfg)"
  then show "distinct (map fst (wakes (run ops (new_manager cfg))))"
    by (rule consistent_distinct [OF consistent_run [OF consistent_new_manager]])
qed

theorem one_terminal_transition_witness:
  "pending waiting_world ''req-1'' = Some demo_entry \<and>
   timer demo_entry < next_timer waiting_world \<and>
   expiresAtMs (heap waiting_world (request demo_entry)) < 70000 \<and>
   2000 \<le> expiresAtMs (heap waiting_world (request demo_entry)) \<and>
   toUpperCase (trim '' Abc234'') =
     toUpperCase (trim (verificationCode (heap waiting_world (request demo_entry)))) \<and>
   (\<exists>cb. timers waiting_world (timer demo_entry) = Some cb \<and>
      cb_request cb = request demo_entry \<and> cb_resolve cb = resolve demo_entry) \<and>
   id_req (heap waiting_world (request demo_entry)) = ''req-1'' \<and>
   terminal_transition waiting_world ''req-1'' demo_entry False
     (snd (cancel waiting_world ''req-1'')) \<and>
   terminal_transition waiting_world ''req-1'' demo_entry False
     (snd (verify waiting_world ''req-1'' ''zzz'' 70000 70001)) \<and>
   terminal_transition waiting_world ''req-1'' demo_entry True
     (snd (verify waiting_world ''req-1'' '' Abc234'' 2000 2001)) \<and>
   (\<exists>w'. fireTimer waiting_world (timer demo_entry) = Some w' \<and>
      terminal_transition waiting_world ''req-1'' demo_entry False w') \<and>
   never_registers ''req-1'' later_ops (snd (verify waiting_world ''req-1'' '' Abc234'' 2000 2001)) \<and>
   cancel (run later_ops (snd (verify waiting_world ''req-1'' '' Abc234'' 2000 2001))) ''req-1'' =
     (False, run later_ops (snd (verify waiting_world ''req-1'' '' Abc234'' 2000 2001))) \<and>
   fireTimer (run later_ops (snd (verify waiting_world ''req-1'' '' Abc234'' 2000 2001)))
     (timer demo_entry) = None \<and>
   waits_on_created double_wait_ops (new_manager demo_config) \<and>
   wakes (run double_wait_ops (new_manager demo_config)) = [(1, True), (0, False)] \<and>
   distinct (map fst (wakes (run double_wait_ops (new_manager demo_config))))"
proof -
  have dw: "waits_on_created double_wait_ops (new_manager demo_config)"
    and dk: "wakes (run double_wait_ops (new_manager demo_config)) = [(1, True), (0, False)]"
    using double_wait_run by simp_all
  have h1: "pending waiting_world ''req-1'' = Some demo_entry"
    by (simp add: waiting_world_eq)
  have h2: "timer demo_entry < next_timer waiting_world"
    by (simp add: waiting_world_eq demo_entry_def)
  have h3: "expiresAtMs (heap waiting_world (request demo_entry)) < 70000"
    and h4: "2000 \<le> expiresAtMs (heap waiting_world (request demo_entry))"
    and h7: "id_req (heap waiting_world (request demo_entry)) = ''req-1''"
    by (simp_all add: waiting_world_eq demo_entry_def demo_request_def)
  have u: "toUpperCase (trim '' Abc234'') = ''ABC234''"
    by code_simp
  have h5: "toUpperCase (trim '' Abc234'') =
      toUpperCase (trim (verificationCode (heap waiting_world (request demo_entry))))"
    by (simp add: u waiting_world_eq demo_entry_def demo_request_def upper_trim_stored_code)
  have h6: "\<exists>cb. timers waiting_world (timer demo_entry) = Some cb \<and>
      cb_request cb = request demo_entry \<and> cb_resolve cb = resolve demo_entry"
    by (simp add: waiting_world_eq demo_entry_def)
  have n: "never_registers ''req-1'' later_ops
      (snd (verify waiting_world ''req-1'' '' Abc234'' 2000 2001))"
    by (simp add: later_ops_def)
  note t = one_terminal_transition [OF h1 h2, of 70000 "''zzz''" 70001 2000 "'' Abc234''" 2001
      double_wait_ops demo_config]
  from t dw
  have dd: "distinct (map fst (wakes (run double_wait_ops (new_manager demo_config))))"
    by blast
  from t h3 h4 h5 h6 h7
  have a: "terminal_transition waiting_world ''req-1'' demo_entry False
        (snd (cancel waiting_world ''req-1''))"
    and b: "terminal_transition waiting_world ''req-1'' demo_entry False
        (snd (verify waiting_world ''req-1'' ''zzz'' 70000 70001))"
    and c: "terminal_transition waiting_world ''req-1'' demo_entry True
        (snd (verify waiting_world ''req-1'' '' Abc234'' 2000 2001))"
    and d: "\<exists>w'. fireTimer waiting_world (timer demo_entry) = Some w' \<and>
        terminal_transition waiting_world ''req-1'' demo_entry False w'"
    by blast+
  from c n
  have e: "cancel (run later_ops (snd (verify waiting_world ''req-1'' '' Abc234'' 2000 2001)))
        ''req-1'' =
      (False, run later_ops (snd (verify waiting_world ''req-1'' '' Abc234'' 2000 2001)))"
    and f: "fireTimer (run later_ops (snd (verify waiting_world ''req-1'' '' Abc234'' 2000 2001)))
        (timer demo_entry) = None"
    unfolding terminal_transition_def settled_def by blast+
  from h1 h2 h3 h4 h5 h6 h7 a b c d n e f dw dk dd show ?thesis by blast
qed

section \<open>The status along a run\<close>

lemma unlinked_exec:
  assumes "unlinked w r" "r < next_ref w" "\<not> is_wait_on r x"
  shows "unlinked (exec x w) r \<and> r < next_ref (exec x w) \<and> heap (exec x w) r = heap w r"
proof (cases x)
  case (Create payload now uuid rnd)
  with assms show ?thesis
    by (auto simp add: unlinked_def create_def Let_def split: sum.splits option.splits)
next
  case (WaitForVerification req now)
  with assms show ?thesis
    by (auto simp add: unlinked_def waitForVerification_def Let_def effect_defs split: if_splits)
next
  case (Verify rid code now now')
  with assms show ?thesis
    by (auto simp add: unlinked_def verify_def Let_def effect_defs split: option.splits if_splits)
next
  case (Cancel rid)
  with assms show ?thesis
    by (auto simp add: unlinked_def cancel_def effect_defs split: option.splits if_splits)
next
  case (TimerFires t)
  with assms show ?thesis
    by (auto simp add: unlinked_def fireTimer_def timerCallback_def effect_defs
        split: option.splits if_splits)
qed

lemma linked_by_entry:
  "linked_by w r t \<Longrightarrow> pending w k = Some p \<Longrightarrow> request p = r \<Longrightarrow>
   k = id_req (heap w r) \<and> timer p = t"
  by (simp add: linked_by_def)

lemma linked_by_timer:
  "linked_by w r t \<Longrightarrow> timers w t' = Some cb \<Longrightarrow> cb_request cb = r \<Longrightarrow> t' = t"
  by (auto simp add: linked_by_def)

lemma linked_by_shrink:
  assumes "linked_by w r t"
    and "\<And>t' cb. timers w' t' = Some cb \<Longrightarrow> timers w t' = Some cb"
    and "\<And>k p. pending w' k = Some p \<Longrightarrow> pending w k = Some p"
    and "id_req (heap w' r) = id_req (heap w r)"
  shows "linked_by w' r t"
  using assms unfolding linked_by_def by metis

text \<open>
  The step shared by \<open>verify\<close>, \<open>cancel\<close> and the timer's callback: the table loses the
  key \<open>k\<close>, the armed timers lose \<open>t'\<close>, and only the request at \<open>q\<close> is written.
\<close>

lemma linked_transition:
  assumes l: "linked_by w r t"
    and tm: "\<And>u cb. timers w' u = Some cb \<Longrightarrow> timers w u = Some cb \<and> u \<noteq> t'"
    and pd: "\<And>j p. pending w' j = Some p \<Longrightarrow> pending w j = Some p \<and> j \<noteq> k"
    and hp: "\<And>x. x \<noteq> q \<Longrightarrow> heap w' x = heap w x"
    and idq: "id_req (heap w' q) = id_req (heap w q)"
    and own: "q = r \<Longrightarrow> t' = t \<and> k = id_req (heap w r)"
  shows "(linked_by w' r t \<and> heap w' r = heap w r) \<or> unlinked w' r"
proof (cases "q = r")
  case False
  then have h: "heap w' r = heap w r" by (simp add: hp)
  have "linked_by w' r t"
    by (rule linked_by_shrink [OF l]) (use tm pd h in auto)
  with h show ?thesis by simp
next
  case True
  with own have o: "t' = t" "k = id_req (heap w r)" by simp_all
  have "unlinked w' r"
    unfolding unlinked_def
  proof (intro conjI allI impI)
    fix u cb assume a: "timers w' u = Some cb"
    from tm [OF a] o have "timers w u = Some cb" "u \<noteq> t" by simp_all
    with linked_by_timer [OF l] show "cb_request cb \<noteq> r" by blast
  next
    fix j p assume a: "pending w' j = Some p"
    from pd [OF a] o have "pending w j = Some p" "j \<noteq> id_req (heap w r)" by simp_all
    with linked_by_entry [OF l] show "request p \<noteq> r" by blast
  qed
  then show ?thesis ..
qed

lemma linked_exec:
  assumes l: "linked_by w r t" and a: "r < next_ref w" and nw: "\<not> is_wait_on r x"
  shows "r < next_ref (exec x w) \<and>
         ((linked_by (exec x w) r t \<and> heap (exec x w) r = heap w r) \<or> unlinked (exec x w) r)"
proof (cases x)
  case (Create payload now uuid rnd)
  with assms show ?thesis
    by (auto simp add: linked_by_def create_def Let_def split: sum.splits option.splits)
next
  case (WaitForVerification req now)
  with assms show ?thesis
    by (auto simp add: linked_by_def waitForVerification_def Let_def effect_defs
        split: if_splits)
next
  case (Verify rid code now now')
  show ?thesis
  proof (cases "pending w rid")
    case None
    with Verify l a show ?thesis by (simp add: verify_def)
  next
    case (Some p)
    have n: "next_ref (exec x w) = next_ref w"
      using Verify Some by (simp add: verify_def Let_def effect_defs)
    have "(linked_by (exec x w) r t \<and> heap (exec x w) r = heap w r) \<or> unlinked (exec x w) r"
    proof (cases "exec x w = w")
      case True
      with l show ?thesis by simp
    next
      case False
      show ?thesis
      proof (rule linked_transition [OF l, where t' = "timer p" and k = rid and q = "request p"])
        fix u cb assume "timers (exec x w) u = Some cb"
        with False Verify Some show "timers w u = Some cb \<and> u \<noteq> timer p"
          by (auto simp add: verify_def Let_def effect_defs split: if_splits)
      next
        fix j e assume "pending (exec x w) j = Some e"
        with False Verify Some show "pending w j = Some e \<and> j \<noteq> rid"
          by (auto simp add: verify_def Let_def effect_defs split: if_splits)
      next
        fix y assume "y \<noteq> request p"
        with Verify Some show "heap (exec x w) y = heap w y"
          by (auto simp add: verify_def Let_def effect_defs split: if_splits)
      next
        from Verify Some show "id_req (heap (exec x w) (request p)) = id_req (heap w (request p))"
          by (auto simp add: verify_def Let_def effect_defs split: if_splits)
      next
        assume "request p = r"
        with linked_by_entry [OF l Some] show "timer p = t \<and> rid = id_req (heap w r)" by simp
      qed
    qed
    with n a show ?thesis by simp
  qed
next
  case (Cancel rid)
  show ?thesis
  proof (cases "pending w rid")
    case None
    with Cancel l a show ?thesis by (simp add: cancel_def)
  next
    case (Some p)
    have n: "next_ref (exec x w) = next_ref w"
      using Cancel Some by (simp add: cancel_def effect_defs)
    have "(linked_by (exec x w) r t \<and> heap (exec x w) r = heap w r) \<or> unlinked (exec x w) r"
    proof (rule linked_transition [OF l, where t' = "timer p" and k = rid and q = "request p"])
      fix u cb assume "timers (exec x w) u = Some cb"
      with Cancel Some show "timers w u = Some cb \<and> u \<noteq> timer p"
        by (auto simp add: cancel_def effect_defs split: if_splits)
    next
      fix j e assume "pending (exec x w) j = Some e"
      with Cancel Some show "pending w j = Some e \<and> j \<noteq> rid"
        by (auto simp add: cancel_def effect_defs split: if_splits)
    next
      fix y assume "y \<noteq> request p"
      with Cancel Some show "heap (exec x w) y = heap w y"
        by (auto simp add: cancel_def effect_defs)
    next
      from Cancel Some show "id_req (heap (exec x w) (request p)) = id_req (heap w (request p))"
        by (auto simp add: cancel_def effect_defs)
    next
      assume "request p = r"
      with linked_by_entry [OF l Some] show "timer p = t \<and> rid = id_req (heap w r)" by simp
    qed
    with n a show ?thesis by simp
  qed
next
  case (TimerFires u)
  show ?thesis
  proof (cases "timers w u")
    case None
    with TimerFires l a show ?thesis by (simp add: fireTimer_def)
  next
    case (Some cb)
    have n: "next_ref (exec x w) = next_ref w"
      using TimerFires Some by (simp add: fireTimer_def timerCallback_def effect_defs)
    have "(linked_by (exec x w) r t \<and> heap (exec x w) r = heap w r) \<or> unlinked (exec x w) r"
    proof (rule linked_transition [OF l, where t' = u
          and k = "id_req (heap w (cb_request cb))" and q = "cb_request cb"])
      fix v c assume "timers (exec x w) v = Some c"
      with TimerFires Some show "timers w v = Some c \<and> v \<noteq> u"
        by (auto simp add: fireTimer_def timerCallback_def effect_defs split: if_splits)
    next
      fix j e assume "pending (exec x w) j = Some e"
      with TimerFires Some show "pending w j = Some e \<and> j \<noteq> id_req (heap w (cb_request cb))"
        by (auto simp add: fireTimer_def timerCallback_def effect_defs split: if_splits)
    next
      fix y assume "y \<noteq> cb_request cb"
      with TimerFires Some show "heap (exec x w) y = heap w y"
        by (auto simp add: fireTimer_def timerCallback_def effect_defs)
    next
      from TimerFires Some
      show "id_req (heap (exec x w) (cb_request cb)) = id_req (heap w (cb_request cb))"
        by (auto simp add: fireTimer_def timerCallback_def effect_defs)
    next
      assume "cb_request cb = r"
      with linked_by_timer [OF l Some]
      show "u = t \<and> id_req (heap w (cb_request cb)) = id_req (heap w r)"
        by simp
    qed
    with n a show ?thesis by simp
  qed
qed

lemma changes_statuses_Cons:
  "changes (statuses r (x # xs) w) =
     (if status (heap w r) = status (heap (exec x w) r) then 0 else 1)
     + changes (statuses r xs (exec x w))"
  by (cases xs) simp_all

lemma unlinked_run_no_change:
  "unlinked w r \<Longrightarrow> r < next_ref w \<Longrightarrow> waits_on r ops = 0 \<Longrightarrow> changes (statuses r ops w) = 0"
proof (induction ops arbitrary: w)
  case Nil
  then show ?case by simp
next
  case (Cons x xs)
  from Cons.prems have nw: "\<not> is_wait_on r x" and rest: "waits_on r xs = 0"
    by (auto simp add: waits_on_def split: if_splits)
  from unlinked_exec [OF Cons.prems(1,2) nw]
  have u: "unlinked (exec x w) r" and a: "r < next_ref (exec x w)"
    and h: "heap (exec x w) r = heap w r" by simp_all
  from Cons.IH [OF u a rest] h show ?case
    by (simp only: changes_statuses_Cons) simp
qed

lemma linked_run_one_change:
  "linked_by w r t \<Longrightarrow> r < next_ref w \<Longrightarrow> waits_on r ops = 0 \<Longrightarrow>
   changes (statuses r ops w) \<le> 1"
proof (induction ops arbitrary: w)
  case Nil
  then show ?case by simp
next
  case (Cons x xs)
  from Cons.prems have nw: "\<not> is_wait_on r x" and rest: "waits_on r xs = 0"
    by (auto simp add: waits_on_def split: if_splits)
  from linked_exec [OF Cons.prems(1,2) nw]
  have a: "r < next_ref (exec x w)"
    and c: "(linked_by (exec x w) r t \<and> heap (exec x w) r = heap w r) \<or> unlinked (exec x w) r"
    by simp_all
  from c show ?case
  proof
    assume l: "linked_by (exec x w) r t \<and> heap (exec x w) r = heap w r"
    with Cons.IH [OF _ a rest] show ?thesis
      by (simp only: changes_statuses_Cons) simp
  next
    assume u: "unlinked (exec x w) r"
    from unlinked_run_no_change [OF u a rest] show ?thesis
      by (simp only: changes_statuses_Cons) simp
  qed
qed

lemma wait_on_unlinked:
  assumes "unlinked w r" "r < next_ref w"
  shows "r < next_ref (exec (WaitForVerification r now) w) \<and>
         (unlinked (exec (WaitForVerification r now) w) r \<or>
          (linked_by (exec (WaitForVerification r now) w) r (next_timer w) \<and>
           heap (exec (WaitForVerification r now) w) r = heap w r))"
  using assms
  by (auto simp add: unlinked_def linked_by_def waitForVerification_def Let_def effect_defs
      split: if_splits)

lemma unlinked_run_one_wait:
  "unlinked w r \<Longrightarrow> r < next_ref w \<Longrightarrow> waits_on r ops \<le> 1 \<Longrightarrow>
   changes (statuses r ops w) \<le> 1"
proof (induction ops arbitrary: w)
  case Nil
  then show ?case by simp
next
  case (Cons x xs)
  show ?case
  proof (cases "is_wait_on r x")
    case False
    with Cons.prems have rest: "waits_on r xs \<le> 1"
      by (simp add: waits_on_def)
    from unlinked_exec [OF Cons.prems(1,2) False]
    have u: "unlinked (exec x w) r" and a: "r < next_ref (exec x w)"
      and h: "heap (exec x w) r = heap w r" by simp_all
    from Cons.IH [OF u a rest] h show ?thesis
      by (simp only: changes_statuses_Cons) simp
  next
    case True
    then obtain now where x: "x = WaitForVerification r now"
      by (cases x) simp_all
    from True Cons.prems have rest: "waits_on r xs = 0"
      by (simp add: waits_on_def)
    from wait_on_unlinked [OF Cons.prems(1,2), of now] x
    have a: "r < next_ref (exec x w)"
      and c: "unlinked (exec x w) r \<or>
          (linked_by (exec x w) r (next_timer w) \<and> heap (exec x w) r = heap w r)"
      by simp_all
    from c show ?thesis
    proof
      assume u: "unlinked (exec x w) r"
      from unlinked_run_no_change [OF u a rest] show ?thesis
        by (simp only: changes_statuses_Cons) simp
    next
      assume l: "linked_by (exec x w) r (next_timer w) \<and> heap (exec x w) r = heap w r"
      then have "changes (statuses r xs (exec x w)) \<le> 1"
        using linked_run_one_change a rest by blast
      with l show ?thesis
        by (simp only: changes_statuses_Cons) simp
    qed
  qed
qed

lemma changes_zero_const:
  "changes xs = 0 \<Longrightarrow> i < length xs \<Longrightarrow> xs ! i = hd xs"
proof (induction xs arbitrary: i rule: changes.induct)
  case (1 x y zs)
  then show ?case by (cases i) (auto split: if_splits)
qed simp_all

lemma changes_once_stable:
  "changes xs \<le> 1 \<Longrightarrow> i \<le> j \<Longrightarrow> j < length xs \<Longrightarrow> xs ! i \<noteq> hd xs \<Longrightarrow> xs ! j = xs ! i"
proof (induction xs arbitrary: i j rule: changes.induct)
  case (1 x y zs)
  from "1.prems" obtain i' where i: "i = Suc i'" by (cases i) auto
  with "1.prems" obtain j' where j: "j = Suc j'" by (cases j) auto
  show ?case
  proof (cases "x = y")
    case True
    with "1.prems" i j "1.IH" [of i' j'] show ?thesis by simp
  next
    case False
    with "1.prems" have z: "changes (y # zs) = 0" by simp
    from "1.prems" i j have "i' < length (y # zs)" "j' < length (y # zs)" by simp_all
    with changes_zero_const [OF z] i j show ?thesis by simp
  qed
qed simp_all

lemma hd_statuses: "hd (statuses r ops w) = status (heap w r)"
  by (cases ops) simp_all

lemma length_statuses: "length (statuses r ops w) = Suc (length ops)"
  by (induction ops arbitrary: w) simp_all

lemma nth_statuses:
  "i \<le> length ops \<Longrightarrow> statuses r ops w ! i = status (heap (run (take i ops) w) r)"
proof (induction ops arbitrary: w i)
  case Nil
  then show ?case by simp
next
  case (Cons x xs)
  then show ?case by (cases i) simp_all
qed

text \<open>
  C2, as stated, fails: a request is created, waited on, verified with its code, and
  \<open>waitForVerification\<close> is called on it again after its deadline; its status goes from
  pending to verified and then to expired.
\<close>

theorem status_changes_twice_counterexample:
  "create (new_manager demo_config) demo_payload 1000 ''req-1'' demo_rnd = Inr (0, created_world) \<and>
   statuses 0 [WaitForVerification 0 1000, Verify ''req-1'' ''abc234'' 2000 2001,
               WaitForVerification 0 70000] created_world
     = [Pending, Pending, Verified, Expired]"
  by (simp add: created_world_eq create_def new_manager_def mockCode_def demo_config_def
      demo_payload_def trim_demo_code waitForVerification_def verify_def effect_defs
      demo_request_def upper_trim_stored_code Let_def)

text \<open>
  C2, amended. A request returned by \<open>create\<close> (in a world where no entry and no timer
  refers to the reference the new object takes) is pending, and under any sequence of
  manager operations that calls \<open>waitForVerification\<close> on it at most once its status
  changes at most once: once it is not pending, no later operation of the sequence
  changes it.
\<close>

theorem status_changes_once_per_wait:
  assumes c: "create w0 payload now uuid rnd = Inr (r, w)"
    and u: "unlinked w0 r"
    and o: "waits_on r ops \<le> 1"
  shows "status (heap w r) = Pending \<and>
         changes (statuses r ops w) \<le> 1 \<and>
         (\<forall>i j. i \<le> j \<and> j \<le> length ops \<and>
                status (heap (run (take i ops) w) r) \<noteq> Pending \<longrightarrow>
                status (heap (run (take j ops) w) r) = status (heap (run (take i ops) w) r))"
proof -
  from c have s: "status (heap w r) = Pending" and a: "r < next_ref w"
    and t: "timers w = timers w0" and p: "pending w = pending w0"
    by (auto simp add: create_def Let_def split: sum.splits option.splits)
  from u t p have u': "unlinked w r" by (simp add: unlinked_def)
  have ch: "changes (statuses r ops w) \<le> 1"
    by (rule unlinked_run_one_wait [OF u' a o])
  have "status (heap (run (take j ops) w) r) = status (heap (run (take i ops) w) r)"
    if "i \<le> j" "j \<le> length ops" "status (heap (run (take i ops) w) r) \<noteq> Pending" for i j
  proof -
    from that have "statuses r ops w ! i \<noteq> hd (statuses r ops w)"
      by (simp add: nth_statuses hd_statuses s)
    with changes_once_stable [OF ch, of i j] that
    show ?thesis by (simp add: nth_statuses length_statuses)
  qed
  with s ch show ?thesis by blast
qed

theorem status_changes_once_per_wait_witness:
  "create (new_manager demo_config) demo_payload 1000 ''req-1'' demo_rnd = Inr (0, created_world) \<and>
   unlinked (new_manager demo_config) 0 \<and>
   waits_on 0 demo_ops \<le> 1 \<and>
   statuses 0 demo_ops created_world = [Pending, Pending, Pending, Expired, Expired, Expired] \<and>
   changes (statuses 0 demo_ops created_world) \<le> 1 \<and>
   3 \<le> (5::nat) \<and> 5 \<le> length demo_ops \<and>
   status (heap (run (take 3 demo_ops) created_world) 0) \<noteq> Pending \<and>
   status (heap (run (take 5 demo_ops) created_world) 0)
     = status (heap (run (take 3 demo_ops) created_world) 0)"
proof -
  have u: "unlinked (new_manager demo_config) 0"
    by (simp add: unlinked_def new_manager_def)
  have o: "waits_on 0 demo_ops \<le> 1"
    by (simp add: waits_on_def demo_ops_def)
  have e: "statuses 0 demo_ops created_world
      = [Pending, Pending, Pending, Expired, Expired, Expired]"
    by (simp add: demo_ops_def created_world_eq waitForVerification_def verify_def cancel_def
        fireTimer_def timerCallback_def effect_defs demo_request_def upper_trim_stored_code
        upper_trim_wrong_code Let_def)
  have l: "3 \<le> (5::nat) \<and> 5 \<le> length demo_ops"
    by (simp add: demo_ops_def)
  have "statuses 0 demo_ops created_world ! 3 = Expired"
    by (simp add: e)
  with l have n: "status (heap (run (take 3 demo_ops) created_world) 0) \<noteq> Pending"
    by (simp add: nth_statuses)
  from status_changes_once_per_wait [OF create_demo u o] create_demo u o e l n
  show ?thesis by blast
qed

end
